theory Spec2Isabelle
  imports Main "HOL-Library.Sublist"
begin

section \<open>JavaScript strings\<close>

text \<open>
  A JavaScript string is modelled as a \<^typ>\<open>string\<close>, one \<^typ>\<open>char\<close> per code unit.
  A value that may be \<open>null\<close> is a \<^typ>\<open>string option\<close>, with \<^term>\<open>None\<close> for
  \<open>null\<close>. The only exception the two script includes can meet on their own is the
  \<open>TypeError\<close> of a method call on \<open>null\<close>.
\<close>

datatype error = TypeError

text \<open>\<open>s.indexOf(pat)\<close>: the position of the first occurrence of \<open>pat\<close>, or \<open>-1\<close>.\<close>

fun indexOf :: "string \<Rightarrow> string \<Rightarrow> int" where
  "indexOf [] pat = (if pat = [] then 0 else - 1)"
| "indexOf (c # cs) pat =
     (if prefix pat (c # cs) then 0
      else (let i = indexOf cs pat in if i = - 1 then - 1 else i + 1))"

text \<open>
  \<open>s.toLowerCase()\<close> on the code units a \<^typ>\<open>char\<close> holds (0 to 255): the letters
  \<open>A\<close> to \<open>Z\<close> and the capital letters of Latin-1 (U+00C0 to U+00DE, the
  multiplication sign U+00D7 apart) move up by 32; every other code unit is kept.
\<close>

definition lowerChar :: "char \<Rightarrow> char" where
  "lowerChar c =
     (let n = (of_char c :: nat) in
      if (65 \<le> n \<and> n \<le> 90) \<or> (192 \<le> n \<and> n \<le> 222 \<and> n \<noteq> 215) then char_of (n + 32)
      else c)"

definition toLowerCase :: "string \<Rightarrow> string" where
  "toLowerCase s = map lowerChar s"

text \<open>\<open>s.split(',')\<close> and \<open>xs.join(',')\<close>.\<close>

fun split_comma :: "string \<Rightarrow> string list" where
  "split_comma [] = [[]]"
| "split_comma (c # cs) =
     (if c = CHR '','' then [] # split_comma cs
      else (case split_comma cs of [] \<Rightarrow> [[c]] | w # ws \<Rightarrow> (c # w) # ws))"

fun join_comma :: "string list \<Rightarrow> string" where
  "join_comma [] = []"
| "join_comma [x] = x"
| "join_comma (x # y # ys) = x @ CHR '','' # join_comma (y # ys)"

text \<open>
  The replacement text of \<open>String.prototype.replace\<close> for a string pattern
  (ECMAScript GetSubstitution with no capture groups): \<open>$$\<close> is a dollar sign,
  \<open>$&\<close> the matched text, \<open>$`\<close> the text before the match, \<open>$'\<close> the text after
  it; every other character, also \<open>$\<close> before a digit, stands for itself.
\<close>

fun getSubstitution :: "string \<Rightarrow> string \<Rightarrow> string \<Rightarrow> string \<Rightarrow> string" where
  "getSubstitution matched preceding following [] = []"
| "getSubstitution matched preceding following [c] = [c]"
| "getSubstitution matched preceding following (c # d # rest) =
     (if c = CHR ''$'' \<and> d = CHR ''$'' then CHR ''$'' # getSubstitution matched preceding following rest
      else if c = CHR ''$'' \<and> d = CHR ''&'' then matched @ getSubstitution matched preceding following rest
      else if c = CHR ''$'' \<and> d = CHR 0x60 then preceding @ getSubstitution matched preceding following rest
      else if c = CHR ''$'' \<and> d = CHR 0x27 then following @ getSubstitution matched preceding following rest
      else c # getSubstitution matched preceding following (d # rest))"

text \<open>
  \<open>s.replace(pat, repl)\<close> with a string pattern: only the first occurrence of \<open>pat\<close>
  is replaced, and \<open>s\<close> is returned as it is when there is none.
\<close>

definition js_replace :: "string \<Rightarrow> string \<Rightarrow> string \<Rightarrow> string" where
  "js_replace s pat repl =
     (let i = indexOf s pat in
      if i = - 1 then s
      else (let preceding = take (nat i) s;
                following = drop (nat i + length pat) s
            in preceding @ getSubstitution pat preceding following repl @ following))"

section \<open>The platform: system properties, record store, user directory\<close>

text \<open>
  Modelled from the spec: the hosting platform (\<open>gs\<close> and \<open>GlideRecord\<close>), which is
  not part of the repository. A record is a list of (field, value) pairs and a field
  that is not set reads as \<open>null\<close>; a table is the list of its records in the order
  the store returns them; a query keeps the records that equal the queried value on
  every queried field (section 6 of the spec: equality predicates only). The user
  directory gives, for the \<open>sys_id\<close> of a user, the groups \<open>isMemberOf\<close> answers
  true for.
\<close>

type_synonym row = "(string \<times> string) list"

record platform =
  sys_properties :: "(string \<times> string) list"
  tables :: "(string \<times> row list) list"
  user_groups :: "(string \<times> string list) list"

definition getProperty :: "platform \<Rightarrow> string \<Rightarrow> string option" where
  "getProperty p name = map_of (sys_properties p) name"

definition getValue :: "row \<Rightarrow> string \<Rightarrow> string option" where
  "getValue r field = map_of r field"

definition table_rows :: "platform \<Rightarrow> string \<Rightarrow> row list" where
  "table_rows p tbl = (case map_of (tables p) tbl of None \<Rightarrow> [] | Some rs \<Rightarrow> rs)"

text \<open>\<open>addQuery(f1, v1); addQuery(f2, v2); query()\<close>: the records matching every condition.\<close>

definition matches :: "(string \<times> string option) list \<Rightarrow> row \<Rightarrow> bool" where
  "matches conds r = list_all (\<lambda>(f, v). getValue r f = v) conds"

definition glide_query :: "platform \<Rightarrow> string \<Rightarrow> (string \<times> string option) list \<Rightarrow> row list" where
  "glide_query p tbl conds = filter (matches conds) (table_rows p tbl)"

text \<open>\<open>get(field, value)\<close>: the first record with that value, if any.\<close>

definition glide_get :: "platform \<Rightarrow> string \<Rightarrow> string \<Rightarrow> string option \<Rightarrow> row option" where
  "glide_get p tbl field v =
     (case glide_query p tbl [(field, v)] of [] \<Rightarrow> None | r # _ \<Rightarrow> Some r)"

text \<open>\<open>gs.getUserByID(id)\<close>: the user's groups, or \<open>null\<close> for an unknown id.\<close>

definition getUserByID :: "platform \<Rightarrow> string option \<Rightarrow> string list option" where
  "getUserByID p sid = (case sid of None \<Rightarrow> None | Some i \<Rightarrow> map_of (user_groups p) i)"

definition isMemberOf :: "string list \<Rightarrow> string \<Rightarrow> bool" where
  "isMemberOf user g = (g \<in> set user)"

section \<open>InstanceConfig.js\<close>

text \<open>The object: \<open>this.instanceId\<close> and the record \<open>this.instance\<close> that \<open>get\<close> loaded, if any.\<close>

record InstanceConfig =
  instanceId :: "string option"
  instance_record :: "row option"

definition initialize :: "platform \<Rightarrow> InstanceConfig" where
  "initialize p =
     (let iid = getProperty p ''instance_name''
      in \<lparr>instanceId = iid,
          instance_record = glide_get p ''x_448357_instanc_0_instance'' ''name'' iid\<rparr>)"

text \<open>The \<open>sys_id\<close> of the loaded instance record; \<open>null\<close> when none was loaded.\<close>

definition getUniqueValue :: "row option \<Rightarrow> string option" where
  "getUniqueValue rec = (case rec of None \<Rightarrow> None | Some r \<Rightarrow> getValue r ''sys_id'')"

definition getName :: "InstanceConfig \<Rightarrow> string option" where
  "getName this = (case instance_record this of None \<Rightarrow> None | Some r \<Rightarrow> getValue r ''name'')"

text \<open>\<open>_lookup\<close>: the instance-specific value, \<open>null\<close> when no record is found.\<close>

definition lookup :: "platform \<Rightarrow> InstanceConfig \<Rightarrow> string option \<Rightarrow> string option" where
  "lookup p this key =
     (case glide_query p ''x_448357_instanc_0_property_scope''
             [(''instance'', getUniqueValue (instance_record this)), (''property.key'', key)] of
        [] \<Rightarrow> None
      | property # _ \<Rightarrow> getValue property ''value'')"

text \<open>\<open>_getDefault\<close>: the default value, \<open>null\<close> when no record is found.\<close>

definition getDefault :: "platform \<Rightarrow> string option \<Rightarrow> string option" where
  "getDefault p key =
     (case glide_query p ''x_448357_instanc_0_property'' [(''key'', key)] of
        [] \<Rightarrow> None
      | property # _ \<Rightarrow> getValue property ''default_value'')"

definition getKey :: "platform \<Rightarrow> InstanceConfig \<Rightarrow> string option \<Rightarrow> string option" where
  "getKey p this key =
     (let v = lookup p this key in
      if v \<noteq> None then v else getDefault p key)"

section \<open>mckMailHelper.js\<close>

text \<open>
  The calls the mail helper makes to the platform are recorded, in order, next to
  each result: property reads, \<open>sys_user\<close> lookups by e-mail, \<open>getUserByID\<close> and
  \<open>isMemberOf\<close>.
\<close>

datatype event =
    GetProperty string
  | UserLookup string
  | GetUserByID "string option"
  | IsMemberOf string

definition emailModifier :: string where
  "emailModifier = ''.test''"

text \<open>
  \<open>emailString.match(/<([^>]*)>/i)\<close>: the match starts at the first \<open><\<close> and ends
  at the first \<open>>\<close> after it; the group is the text between them. There is no match
  when either is missing.
\<close>

definition emailRegex_match :: "string \<Rightarrow> string option" where
  "emailRegex_match s =
     (case dropWhile (\<lambda>c. c \<noteq> CHR ''<'') s of
        [] \<Rightarrow> None
      | _ # rest \<Rightarrow>
          if CHR ''>'' \<in> set rest then Some (takeWhile (\<lambda>c. c \<noteq> CHR ''>'') rest) else None)"

text \<open>\<open>_extractEmailAddress\<close>; \<open>match\<close> on \<open>null\<close> raises.\<close>

definition extractEmailAddress :: "string option \<Rightarrow> error + string" where
  "extractEmailAddress emailString =
     (case emailString of
        None \<Rightarrow> Inl TypeError
      | Some s \<Rightarrow> (case emailRegex_match s of Some m1 \<Rightarrow> Inr m1 | None \<Rightarrow> Inr s))"

definition modifyRecipient :: "string \<Rightarrow> string \<Rightarrow> string" where
  "modifyRecipient originalEmailAddress separatedEmail =
     (if separatedEmail \<noteq> [] then
        js_replace originalEmailAddress separatedEmail (separatedEmail @ emailModifier)
      else originalEmailAddress @ emailModifier)"

text \<open>\<open>_shouldSkipModification\<close>.\<close>

definition shouldSkipModification :: "string \<Rightarrow> string \<Rightarrow> bool" where
  "shouldSkipModification emailAddress receivingAddresses =
     (let isAlreadyModified = (indexOf emailAddress emailModifier \<noteq> - 1);
          isWhitelisted = (indexOf receivingAddresses (toLowerCase emailAddress) \<noteq> - 1)
      in isAlreadyModified \<or> isWhitelisted)"

text \<open>The loop of \<open>_isUserInAuthorizedGroup\<close> over the group ids.\<close>

fun memberLoop :: "string list \<Rightarrow> string list \<Rightarrow> bool \<times> event list" where
  "memberLoop user [] = (False, [])"
| "memberLoop user (g # gs) =
     (if isMemberOf user g then (True, [IsMemberOf g])
      else (let (b, t) = memberLoop user gs in (b, IsMemberOf g # t)))"

text \<open>\<open>_isUserInAuthorizedGroup\<close>.\<close>

definition isUserInAuthorizedGroup ::
  "platform \<Rightarrow> string \<Rightarrow> string list \<Rightarrow> bool \<times> event list" where
  "isUserInAuthorizedGroup p emailAddress receivingGroupIds =
     (case glide_get p ''sys_user'' ''email'' (Some emailAddress) of
        None \<Rightarrow> (False, [UserLookup emailAddress])
      | Some userRecord \<Rightarrow>
          (case getUserByID p (getValue userRecord ''sys_id'') of
             None \<Rightarrow>
               (False, [UserLookup emailAddress, GetUserByID (getValue userRecord ''sys_id'')])
           | Some user \<Rightarrow>
               (let (b, t) = memberLoop user receivingGroupIds
                in (b, UserLookup emailAddress
                       # GetUserByID (getValue userRecord ''sys_id'') # t))))"

text \<open>\<open>_processRecipient\<close>.\<close>

definition processRecipient ::
  "platform \<Rightarrow> string option \<Rightarrow> string \<Rightarrow> string list \<Rightarrow> (error + string) \<times> event list" where
  "processRecipient p userEmail receivingAddresses receivingGroupIds =
     (case (userEmail, extractEmailAddress userEmail) of
        (Some original, Inr extractedEmail) \<Rightarrow>
          if shouldSkipModification extractedEmail receivingAddresses then (Inr original, [])
          else (let (inGroup, t) = isUserInAuthorizedGroup p extractedEmail receivingGroupIds
                in if inGroup then (Inr original, t)
                   else (Inr (modifyRecipient original extractedEmail), t))
      | _ \<Rightarrow> (Inl TypeError, []))"

text \<open>\<open>_getReceivingAddresses\<close> and \<open>_getReceivingGroupIds\<close>.\<close>

definition getReceivingAddresses :: "platform \<Rightarrow> string \<times> event list" where
  "getReceivingAddresses p =
     (case getProperty p ''mck.email.subProdEmail.ReceivingAddresses'' of
        None \<Rightarrow> []
      | Some addresses \<Rightarrow> if addresses \<noteq> [] then toLowerCase addresses else [],
      [GetProperty ''mck.email.subProdEmail.ReceivingAddresses''])"

definition getReceivingGroupIds :: "platform \<Rightarrow> string list \<times> event list" where
  "getReceivingGroupIds p =
     (case getProperty p ''mck.email.subProdEmail.ReceivingGroupIds'' of
        None \<Rightarrow> []
      | Some groupIds \<Rightarrow> if groupIds \<noteq> [] then split_comma groupIds else [],
      [GetProperty ''mck.email.subProdEmail.ReceivingGroupIds''])"

text \<open>
  The loop of \<open>addTestToAddresses\<close>: the recipients are processed in order and the
  first exception ends the loop.
\<close>

fun processLoop ::
  "platform \<Rightarrow> string option list \<Rightarrow> string \<Rightarrow> string list \<Rightarrow> (error + string list) \<times> event list" where
  "processLoop p [] receivingAddresses receivingGroupIds = (Inr [], [])"
| "processLoop p (r # rs) receivingAddresses receivingGroupIds =
     (case processRecipient p r receivingAddresses receivingGroupIds of
        (Inl e, t) \<Rightarrow> (Inl e, t)
      | (Inr recipient, t) \<Rightarrow>
          (case processLoop p rs receivingAddresses receivingGroupIds of
             (Inl e, t') \<Rightarrow> (Inl e, t @ t')
           | (Inr processedRecipients, t') \<Rightarrow> (Inr (recipient # processedRecipients), t @ t')))"

text \<open>\<open>addTestToAddresses\<close>; the recipient list itself may be \<open>null\<close>.\<close>

definition addTestToAddresses ::
  "platform \<Rightarrow> string option list option \<Rightarrow> (error + string) \<times> event list" where
  "addTestToAddresses p recipients =
     (case recipients of
        None \<Rightarrow> (Inr [], [])
      | Some rs \<Rightarrow>
          if length rs = 0 then (Inr [], [])
          else (let (receivingAddresses, t1) = getReceivingAddresses p;
                    (receivingGroupIds, t2) = getReceivingGroupIds p;
                    (res, t3) = processLoop p rs receivingAddresses receivingGroupIds
                in (case res of
                      Inl e \<Rightarrow> (Inl e, t1 @ t2 @ t3)
                    | Inr processedRecipients \<Rightarrow>
                        (Inr (join_comma processedRecipients), t1 @ t2 @ t3))))"

section \<open>Concrete platforms\<close>

text \<open>An instance with no system property, no record and no user.\<close>

definition platform0 :: platform where
  "platform0 = \<lparr>sys_properties = [], tables = [], user_groups = []\<rparr>"


text \<open>
  An instance \<open>dev\<close> with two overrides, for the keys \<open>k\<close> (its value is not set)
  and \<open>m\<close>, and three defaults, for the keys \<open>k\<close>, \<open>m\<close> and the empty string.
\<close>

definition platform_cfg :: platform where
  "platform_cfg =
     \<lparr>sys_properties = [(''instance_name'', ''dev'')],
      tables =
        [(''x_448357_instanc_0_instance'', [[(''sys_id'', ''i1''), (''name'', ''dev'')]]),
         (''x_448357_instanc_0_property_scope'',
            [[(''instance'', ''i1''), (''property.key'', ''k'')],
             [(''instance'', ''i1''), (''property.key'', ''m''), (''value'', ''mv'')]]),
         (''x_448357_instanc_0_property'',
            [[(''key'', ''k''), (''default_value'', ''d'')],
             [(''key'', ''m''), (''default_value'', ''md'')],
             [(''key'', ''''), (''default_value'', ''e'')]])],
      user_groups = []\<rparr>"

text \<open>Two instances that differ in the whitelist property only.\<close>

definition platform_john :: platform where
  "platform_john =
     \<lparr>sys_properties = [(''mck.email.subProdEmail.ReceivingAddresses'', ''john@x.com'')],
      tables = [], user_groups = []\<rparr>"

definition platform_ajohn :: platform where
  "platform_ajohn =
     \<lparr>sys_properties = [(''mck.email.subProdEmail.ReceivingAddresses'', ''ajohn@x.com'')],
      tables = [], user_groups = []\<rparr>"

text \<open>
  An instance \<open>dev\<close> with an override for the empty key, a default for the empty
  key and a default whose key is not set (\<open>null\<close>).
\<close>

definition platform_literal :: platform where
  "platform_literal =
     \<lparr>sys_properties = [(''instance_name'', ''dev'')],
      tables =
        [(''x_448357_instanc_0_instance'', [[(''sys_id'', ''i1''), (''name'', ''dev'')]]),
         (''x_448357_instanc_0_property_scope'',
            [[(''instance'', ''i1''), (''property.key'', ''''), (''value'', ''ov'')]]),
         (''x_448357_instanc_0_property'',
            [[(''key'', ''''), (''default_value'', ''e'')],
             [(''default_value'', ''n'')]])],
      user_groups = []\<rparr>"

section \<open>Facts about the string operations\<close>

lemma indexOf_Nil: "indexOf s [] = 0"
  by (cases s) simp_all

lemma indexOf_lower_bound: "- 1 \<le> indexOf s pat"
  by (induction s) (auto simp: Let_def)

text \<open>\<open>indexOf\<close> differs from \<open>-1\<close> exactly when the pattern is a substring.\<close>

lemma indexOf_sublist: "indexOf s pat \<noteq> - 1 \<longleftrightarrow> sublist pat s"
proof (induction s)
  case Nil
  show ?case by simp
next
  case (Cons c cs)
  have "indexOf cs pat + 1 \<noteq> - 1"
    using indexOf_lower_bound [of cs pat] by linarith
  with Cons show ?case
    by (auto simp: Let_def sublist_Cons_right)
qed

lemma indexOf_self: "indexOf s s = 0"
  by (cases s) simp_all

lemma getSubstitution_plain:
  "CHR ''$'' \<notin> set repl \<Longrightarrow> getSubstitution m b a repl = repl"
  by (induction m b a repl rule: getSubstitution.induct) auto

lemma split_comma_no_comma: "CHR '','' \<notin> set s \<Longrightarrow> split_comma s = [s]"
  by (induction s) auto

section \<open>Facts about the record store\<close>

lemma filter_first_find:
  "(case filter P xs of [] \<Rightarrow> None | x # _ \<Rightarrow> Some x) = find P xs"
  by (induction xs) auto

lemma glide_get_find:
  "glide_get p tbl f v = find (\<lambda>r. getValue r f = v) (table_rows p tbl)"
  by (simp add: glide_get_def glide_query_def matches_def [abs_def] filter_first_find [symmetric])

lemma glide_query_two:
  "glide_query p tbl [(f1, v1), (f2, v2)] =
     filter (\<lambda>r. getValue r f1 = v1 \<and> getValue r f2 = v2) (table_rows p tbl)"
  by (simp add: glide_query_def matches_def [abs_def])

lemma glide_query_one:
  "glide_query p tbl [(f, v)] = filter (\<lambda>r. getValue r f = v) (table_rows p tbl)"
  by (simp add: glide_query_def matches_def [abs_def])

lemma platform_cfg_instance:
  "getUniqueValue (instance_record (initialize platform_cfg)) = Some ''i1''"
  by (simp add: initialize_def getProperty_def platform_cfg_def glide_get_find table_rows_def
      getValue_def getUniqueValue_def)

lemma platform_cfg_scope:
  "table_rows platform_cfg ''x_448357_instanc_0_property_scope'' =
     [[(''instance'', ''i1''), (''property.key'', ''k'')],
      [(''instance'', ''i1''), (''property.key'', ''m''), (''value'', ''mv'')]]"
  by (simp add: platform_cfg_def table_rows_def)

lemma platform_cfg_property:
  "table_rows platform_cfg ''x_448357_instanc_0_property'' =
     [[(''key'', ''k''), (''default_value'', ''d'')],
      [(''key'', ''m''), (''default_value'', ''md'')],
      [(''key'', ''''), (''default_value'', ''e'')]]"
  by (simp add: platform_cfg_def table_rows_def)

section \<open>Facts about the mail helper\<close>

text \<open>A recipient that is a string never raises.\<close>

lemma processRecipient_string:
  "\<exists>out. fst (processRecipient p (Some r) wl gids) = Inr out"
  by (auto simp: processRecipient_def extractEmailAddress_def split: option.splits prod.splits)

lemma processLoop_strings:
  "fst (processLoop p (map Some rs) wl gids) =
     Inr (map (\<lambda>r. projr (fst (processRecipient p (Some r) wl gids))) rs)"
proof (induction rs)
  case Nil
  show ?case by simp
next
  case (Cons r rs)
  obtain out where "fst (processRecipient p (Some r) wl gids) = Inr out"
    using processRecipient_string by blast
  with Cons show ?case
    by (auto split: prod.splits sum.splits)
qed

lemma getReceivingAddresses_trace:
  "snd (getReceivingAddresses p) = [GetProperty ''mck.email.subProdEmail.ReceivingAddresses'']"
  by (simp add: getReceivingAddresses_def)

lemma getReceivingGroupIds_trace:
  "snd (getReceivingGroupIds p) = [GetProperty ''mck.email.subProdEmail.ReceivingGroupIds'']"
  by (simp add: getReceivingGroupIds_def)

text \<open>One recipient: two property reads, then the recipient is processed.\<close>

lemma addTestToAddresses_single:
  "addTestToAddresses p (Some [Some r]) =
     (fst (processRecipient p (Some r) (fst (getReceivingAddresses p))
             (fst (getReceivingGroupIds p))),
      GetProperty ''mck.email.subProdEmail.ReceivingAddresses''
      # GetProperty ''mck.email.subProdEmail.ReceivingGroupIds''
      # snd (processRecipient p (Some r) (fst (getReceivingAddresses p))
               (fst (getReceivingGroupIds p))))"
proof -
  obtain wl t1 where a: "getReceivingAddresses p = (wl, t1)"
    by (cases "getReceivingAddresses p")
  obtain gids t2 where g: "getReceivingGroupIds p = (gids, t2)"
    by (cases "getReceivingGroupIds p")
  obtain out where "fst (processRecipient p (Some r) wl gids) = Inr out"
    using processRecipient_string by blast
  then obtain t3 where r: "processRecipient p (Some r) wl gids = (Inr out, t3)"
    by (cases "processRecipient p (Some r) wl gids") simp
  have t1: "t1 = [GetProperty ''mck.email.subProdEmail.ReceivingAddresses'']"
    using getReceivingAddresses_trace [of p] a by simp
  have t2: "t2 = [GetProperty ''mck.email.subProdEmail.ReceivingGroupIds'']"
    using getReceivingGroupIds_trace [of p] g by simp
  show ?thesis
    by (simp add: addTestToAddresses_def a g r t1 t2)
qed

text \<open>
  A list of strings never raises: the result is the processed recipients, in order,
  joined with commas.
\<close>

lemma addTestToAddresses_strings:
  "fst (addTestToAddresses p (Some (map Some rs))) =
     Inr (join_comma
       (map (\<lambda>r. projr (fst (processRecipient p (Some r) (fst (getReceivingAddresses p))
                                (fst (getReceivingGroupIds p))))) rs))"
proof -
  obtain wl t1 where a: "getReceivingAddresses p = (wl, t1)"
    by (cases "getReceivingAddresses p")
  obtain gids t2 where g: "getReceivingGroupIds p = (gids, t2)"
    by (cases "getReceivingGroupIds p")
  obtain res t3 where l: "processLoop p (map Some rs) wl gids = (res, t3)"
    by (cases "processLoop p (map Some rs) wl gids")
  with processLoop_strings [of p rs wl gids]
  have "res = Inr (map (\<lambda>r. projr (fst (processRecipient p (Some r) wl gids))) rs)"
    by simp
  with a g l show ?thesis
    by (simp add: addTestToAddresses_def)
qed


lemma memberLoop_none:
  "\<forall>g \<in> set gs. \<not> isMemberOf u g \<Longrightarrow> memberLoop u gs = (False, map IsMemberOf gs)"
  by (induction gs) auto



lemma no_table_no_user:
  "tables p = [] \<Longrightarrow> isUserInAuthorizedGroup p e gids = (False, [UserLookup e])"
  by (simp add: isUserInAuthorizedGroup_def glide_get_find table_rows_def)

lemma platform0_whitelist: "fst (getReceivingAddresses platform0) = []"
  by (simp add: getReceivingAddresses_def getProperty_def platform0_def)

lemma platform0_groups: "fst (getReceivingGroupIds platform0) = []"
  by (simp add: getReceivingGroupIds_def getProperty_def platform0_def)

lemma platform0_tables: "tables platform0 = []"
  by (simp add: platform0_def)

text \<open>
  A recipient with no \<open><\<close> is not matched by the regular expression and is its own
  address; with no \<open>$\<close> in it, modification appends the suffix.
\<close>

lemma extractEmailAddress_bare:
  assumes "CHR ''<'' \<notin> set s"
  shows "emailRegex_match s = None \<and> extractEmailAddress (Some s) = Inr s"
proof -
  from assms have "\<forall>c \<in> set s. c \<noteq> CHR ''<''" by blast
  then have d: "dropWhile (\<lambda>c. c \<noteq> CHR ''<'') s = []" by simp
  have "emailRegex_match s = None"
    unfolding emailRegex_match_def d by simp
  then show ?thesis
    by (simp add: extractEmailAddress_def)
qed

lemma modifyRecipient_bare:
  "s \<noteq> [] \<Longrightarrow> CHR ''$'' \<notin> set s \<Longrightarrow> modifyRecipient s s = s @ ''.test''"
proof -
  assume "s \<noteq> []" and "CHR ''$'' \<notin> set s"
  then have "CHR ''$'' \<notin> set (s @ emailModifier)"
    by (simp add: emailModifier_def)
  then have "getSubstitution m b a (s @ emailModifier) = s @ emailModifier" for m b a
    by (rule getSubstitution_plain)
  with \<open>s \<noteq> []\<close> show ?thesis
    by (simp add: modifyRecipient_def js_replace_def indexOf_self emailModifier_def)
qed

text \<open>
  The wrapped form: when the display name has no \<open><\<close> the address is the text
  between the brackets, and when the address has no \<open>$\<close> and does not occur in the
  recipient before the bracket, the suffix goes after the bracketed address only.
\<close>

lemma extractEmailAddress_wrapped:
  assumes "CHR ''<'' \<notin> set name" and "CHR ''>'' \<notin> set e"
  shows "extractEmailAddress (Some (name @ CHR ''<'' # e @ CHR ''>'' # rest)) = Inr e"
proof -
  have "dropWhile (\<lambda>c. c \<noteq> CHR ''<'') (name @ CHR ''<'' # e @ CHR ''>'' # rest)
          = dropWhile (\<lambda>c. c \<noteq> CHR ''<'') (CHR ''<'' # e @ CHR ''>'' # rest)"
    using assms(1) by (intro dropWhile_append2) auto
  then have "dropWhile (\<lambda>c. c \<noteq> CHR ''<'') (name @ CHR ''<'' # e @ CHR ''>'' # rest)
          = CHR ''<'' # e @ CHR ''>'' # rest"
    by simp
  moreover have "takeWhile (\<lambda>c. c \<noteq> CHR ''>'') (e @ CHR ''>'' # rest) = e"
    using assms(2) by (auto simp: takeWhile_tail)
  ultimately show ?thesis
    by (simp add: extractEmailAddress_def emailRegex_match_def)
qed

lemma modifyRecipient_wrapped:
  assumes "e \<noteq> []" and "CHR ''$'' \<notin> set e"
    and "indexOf (name @ CHR ''<'' # e @ CHR ''>'' # rest) e = int (length name) + 1"
  shows "modifyRecipient (name @ CHR ''<'' # e @ CHR ''>'' # rest) e
           = name @ CHR ''<'' # e @ ''.test'' @ CHR ''>'' # rest"
proof -
  have "CHR ''$'' \<notin> set (e @ emailModifier)"
    using assms(2) by (simp add: emailModifier_def)
  then have "getSubstitution m b a (e @ emailModifier) = e @ emailModifier" for m b a
    by (rule getSubstitution_plain)
  moreover have "nat (int (length name) + 1) = Suc (length name)" by simp
  ultimately show ?thesis
    using assms(1,3) by (simp add: modifyRecipient_def js_replace_def emailModifier_def)
qed

lemma wrapped_example:
  "fst (addTestToAddresses platform0 (Some [Some ''John Doe <john@x.com>'']))
     = Inr ''John Doe <john@x.com.test>''"
proof -
  have e: "extractEmailAddress (Some ''John Doe <john@x.com>'') = Inr ''john@x.com''"
    by (simp add: extractEmailAddress_def emailRegex_match_def)
  have s: "\<not> shouldSkipModification ''john@x.com'' []"
    by (simp add: shouldSkipModification_def emailModifier_def toLowerCase_def)
  have m: "modifyRecipient ''John Doe <john@x.com>'' ''john@x.com'' = ''John Doe <john@x.com.test>''"
    by (simp add: modifyRecipient_def js_replace_def emailModifier_def)
  show ?thesis
    by (simp add: addTestToAddresses_single processRecipient_def e s m platform0_whitelist
        no_table_no_user [OF platform0_tables])
qed

lemma skip_empty: "shouldSkipModification [] wl"
  by (simp add: shouldSkipModification_def toLowerCase_def indexOf_Nil)

lemma skip_suffixed: "shouldSkipModification (e @ ''.test'') wl"
  by (simp add: shouldSkipModification_def indexOf_sublist emailModifier_def)

lemma processRecipient_cases:
  assumes "extractEmailAddress (Some r) = Inr e"
  shows "fst (processRecipient p (Some r) wl gids) = Inr r
         \<or> (e \<noteq> [] \<and> fst (processRecipient p (Some r) wl gids) = Inr (modifyRecipient r e))"
proof (cases "shouldSkipModification e wl")
  case True
  with assms show ?thesis by (simp add: processRecipient_def)
next
  case False
  with skip_empty have "e \<noteq> []" by auto
  with assms False show ?thesis
    by (auto simp: processRecipient_def split: prod.splits)
qed

text \<open>
  A second pass leaves a processed recipient as it is when the recipient has no
  \<open><\<close> and no \<open>$\<close>, or is in the wrapped form with an address that has no \<open>$\<close> and
  does not occur before the bracket: a modified recipient then has \<open>.test\<close> in its
  extracted address and rule A applies.
\<close>

lemma processRecipient_stable:
  assumes shape:
      "(CHR ''<'' \<notin> set r \<and> CHR ''$'' \<notin> set r)
       \<or> (\<exists>name e rest. r = name @ CHR ''<'' # e @ CHR ''>'' # rest
            \<and> CHR ''<'' \<notin> set name \<and> CHR ''>'' \<notin> set e \<and> CHR ''$'' \<notin> set e
            \<and> indexOf r e = int (length name) + 1)"
    and first: "fst (processRecipient p (Some r) wl gids) = Inr r'"
  shows "fst (processRecipient p (Some r') wl gids) = Inr r'"
proof -
  from shape show ?thesis
  proof
    assume bare: "CHR ''<'' \<notin> set r \<and> CHR ''$'' \<notin> set r"
    then have ext: "extractEmailAddress (Some r) = Inr r"
      by (simp add: extractEmailAddress_bare)
    from processRecipient_cases [OF ext, of p wl gids] first
    consider "r' = r" | "r \<noteq> []" "r' = modifyRecipient r r" by auto
    then show ?thesis
    proof cases
      case 1
      with first show ?thesis by simp
    next
      case 2
      with bare have r': "r' = r @ ''.test''"
        by (simp add: modifyRecipient_bare)
      with bare have "extractEmailAddress (Some r') = Inr (r @ ''.test'')"
        by (simp add: extractEmailAddress_bare)
      then show ?thesis
        using skip_suffixed [of r wl] r' by (simp add: processRecipient_def)
    qed
  next
    assume "\<exists>name e rest. r = name @ CHR ''<'' # e @ CHR ''>'' # rest
            \<and> CHR ''<'' \<notin> set name \<and> CHR ''>'' \<notin> set e \<and> CHR ''$'' \<notin> set e
            \<and> indexOf r e = int (length name) + 1"
    then obtain name e rest where r: "r = name @ CHR ''<'' # e @ CHR ''>'' # rest"
      and name: "CHR ''<'' \<notin> set name" and e: "CHR ''>'' \<notin> set e" "CHR ''$'' \<notin> set e"
      and pos: "indexOf r e = int (length name) + 1"
      by blast
    have ext: "extractEmailAddress (Some r) = Inr e"
      unfolding r using name e(1) by (rule extractEmailAddress_wrapped)
    from processRecipient_cases [OF ext, of p wl gids] first
    consider "r' = r" | "e \<noteq> []" "r' = modifyRecipient r e" by auto
    then show ?thesis
    proof cases
      case 1
      with first show ?thesis by simp
    next
      case 2
      with e(2) pos have r': "r' = name @ CHR ''<'' # (e @ ''.test'') @ CHR ''>'' # rest"
        unfolding r by (simp add: modifyRecipient_wrapped)
      have "CHR ''>'' \<notin> set (e @ ''.test'')"
        using e(1) by simp
      with name have "extractEmailAddress (Some r') = Inr (e @ ''.test'')"
        unfolding r' by (rule extractEmailAddress_wrapped)
      then show ?thesis
        using skip_suffixed [of e wl] by (simp add: processRecipient_def)
    qed
  qed
qed

section \<open>The claims\<close>

subsection \<open>C1: Resolution order of getKey\<close>

text \<open>
  C1 as stated does not hold: on \<open>platform_cfg\<close> the override record for
  (\<open>dev\<close>, \<open>k\<close>) exists and its value is \<open>null\<close>, yet \<open>getKey("k")\<close> returns the
  default \<open>d\<close>, since \<open>getKey\<close> tells a found override from a missing one by
  \<open>value !== null\<close>.
\<close>

theorem override_with_null_value_counterexample:
  "glide_query platform_cfg ''x_448357_instanc_0_property_scope''
      [(''instance'', getUniqueValue (instance_record (initialize platform_cfg))),
       (''property.key'', Some ''k'')]
     = [[(''instance'', ''i1''), (''property.key'', ''k'')]]
   \<and> getValue [(''instance'', ''i1''), (''property.key'', ''k'')] ''value'' = None
   \<and> getKey platform_cfg (initialize platform_cfg) (Some ''k'') = Some ''d''"
  by (simp add: getKey_def lookup_def getDefault_def glide_query_two glide_query_one
      platform_cfg_instance platform_cfg_scope platform_cfg_property getValue_def)

text \<open>
  C1, amended: \<open>getKey(k)\<close> returns the value of the first override record matching
  (loaded instance, \<open>k\<close>) when there is one and its value is not \<open>null\<close>;
  otherwise (no such record, or a \<open>null\<close> value) the default value of the first
  default record matching \<open>k\<close> when there is one; otherwise \<open>null\<close>. This holds
  for every key, \<open>null\<close> and the empty string included, and no branch raises.
\<close>

theorem getKey_resolution:
  "let overrides =
         filter (\<lambda>r. getValue r ''instance'' = getUniqueValue (instance_record this)
                      \<and> getValue r ''property.key'' = k)
           (table_rows p ''x_448357_instanc_0_property_scope'');
       defaults =
         filter (\<lambda>r. getValue r ''key'' = k) (table_rows p ''x_448357_instanc_0_property'');
       default_value = (case defaults of [] \<Rightarrow> None | d # _ \<Rightarrow> getValue d ''default_value'')
   in getKey p this k =
        (case overrides of
           [] \<Rightarrow> default_value
         | r # _ \<Rightarrow> (case getValue r ''value'' of None \<Rightarrow> default_value | Some v \<Rightarrow> Some v))"
  by (simp add: getKey_def lookup_def getDefault_def glide_query_two glide_query_one Let_def
      split: list.splits option.splits)

theorem getKey_resolution_witness:
  "getKey platform_cfg (initialize platform_cfg) (Some ''m'') = Some ''mv''
   \<and> getKey platform_cfg (initialize platform_cfg) (Some '''') = Some ''e''
   \<and> getKey platform_cfg (initialize platform_cfg) (Some ''zz'') = None"
  using getKey_resolution [of "initialize platform_cfg" "Some ''m''" platform_cfg]
    getKey_resolution [of "initialize platform_cfg" "Some ''''" platform_cfg]
    getKey_resolution [of "initialize platform_cfg" "Some ''zz''" platform_cfg]
  by (simp add: platform_cfg_instance platform_cfg_scope platform_cfg_property getValue_def)

subsection \<open>C2: Rule B: the whitelist\<close>

text \<open>
  C2 as stated does not hold: rule B looks for the address inside the whitelist
  string, not for a whitelist entry inside the address. With the whitelist
  \<open>"john@x.com"\<close> the address \<open>"ajohn@x.com"\<close> is not matched by rule B, whatever
  the platform, and on a platform with no user it gets the suffix.
\<close>

theorem whitelist_direction_counterexample:
  "fst (getReceivingAddresses platform_john) = ''john@x.com''
   \<and> \<not> shouldSkipModification ''ajohn@x.com'' ''john@x.com''
   \<and> fst (addTestToAddresses platform_john (Some [Some ''ajohn@x.com''])) = Inr ''ajohn@x.com.test''"
proof -
  have w: "fst (getReceivingAddresses platform_john) = ''john@x.com''"
    by (simp add: getReceivingAddresses_def getProperty_def platform_john_def toLowerCase_def
        lowerChar_def)
  have s: "\<not> shouldSkipModification ''ajohn@x.com'' ''john@x.com''"
    by (simp add: shouldSkipModification_def emailModifier_def toLowerCase_def lowerChar_def)
  have e: "extractEmailAddress (Some ''ajohn@x.com'') = Inr ''ajohn@x.com''"
    by (simp add: extractEmailAddress_def emailRegex_match_def)
  have t: "tables platform_john = []"
    by (simp add: platform_john_def)
  have m: "modifyRecipient ''ajohn@x.com'' ''ajohn@x.com'' = ''ajohn@x.com.test''"
    by (simp add: modifyRecipient_def js_replace_def emailModifier_def)
  show ?thesis
    using w s
    by (simp add: addTestToAddresses_single processRecipient_def e no_table_no_user [OF t] m)
qed

text \<open>
  C2, amended: \<open>_shouldSkipModification\<close> holds exactly when \<open>.test\<close> is a substring
  of the address (rule A) or the lowercased address is a substring of the whitelist
  string (rule B: containment, not set membership). So the whitelist
  \<open>"ajohn@x.com"\<close> also matches the address \<open>"john@x.com"\<close>: on every platform
  whose whitelist property is \<open>"ajohn@x.com"\<close>, \<open>addTestToAddresses(["john@x.com"])\<close>
  returns \<open>"john@x.com"\<close> and looks no user up.
\<close>

theorem whitelist_substring_containment:
  "(shouldSkipModification a wl \<longleftrightarrow> sublist emailModifier a \<or> sublist (toLowerCase a) wl)
   \<and> (getProperty p ''mck.email.subProdEmail.ReceivingAddresses'' = Some ''ajohn@x.com'' \<longrightarrow>
        addTestToAddresses p (Some [Some ''john@x.com'']) =
          (Inr ''john@x.com'', [GetProperty ''mck.email.subProdEmail.ReceivingAddresses'',
                                GetProperty ''mck.email.subProdEmail.ReceivingGroupIds'']))"
proof (intro conjI impI)
  show "shouldSkipModification a wl \<longleftrightarrow> sublist emailModifier a \<or> sublist (toLowerCase a) wl"
    by (simp add: shouldSkipModification_def indexOf_sublist)
next
  assume "getProperty p ''mck.email.subProdEmail.ReceivingAddresses'' = Some ''ajohn@x.com''"
  then have w: "fst (getReceivingAddresses p) = ''ajohn@x.com''"
    by (simp add: getReceivingAddresses_def toLowerCase_def lowerChar_def)
  have s: "shouldSkipModification ''john@x.com'' ''ajohn@x.com''"
    by (simp add: shouldSkipModification_def emailModifier_def toLowerCase_def lowerChar_def)
  have e: "extractEmailAddress (Some ''john@x.com'') = Inr ''john@x.com''"
    by (simp add: extractEmailAddress_def emailRegex_match_def)
  show "addTestToAddresses p (Some [Some ''john@x.com'']) =
          (Inr ''john@x.com'', [GetProperty ''mck.email.subProdEmail.ReceivingAddresses'',
                                GetProperty ''mck.email.subProdEmail.ReceivingGroupIds''])"
    by (simp add: addTestToAddresses_single processRecipient_def e w s)
qed

theorem whitelist_substring_containment_witness:
  "fst (addTestToAddresses platform_ajohn (Some [Some ''john@x.com''])) = Inr ''john@x.com''"
proof -
  have "getProperty platform_ajohn ''mck.email.subProdEmail.ReceivingAddresses'' = Some ''ajohn@x.com''"
    by (simp add: getProperty_def platform_ajohn_def)
  with whitelist_substring_containment [of "[]" "[]" platform_ajohn] show ?thesis
    by simp
qed

subsection \<open>C3: Modification of a wrapped recipient\<close>

text \<open>
  C3 (in the wrapped form only the bracketed address gets the suffix and the display
  name is preserved) fails on the code when the address also occurs in the display
  name: \<open>replace\<close> with a string pattern rewrites the first occurrence, which lies
  in the display name. For \<open>"john@x.com <john@x.com>"\<close> the result is
  \<open>"john@x.com.test <john@x.com>"\<close>: the display name is changed and the bracketed
  address is not.
\<close>

theorem display_name_modified:
  "extractEmailAddress (Some ''john@x.com <john@x.com>'') = Inr ''john@x.com''
   \<and> fst (addTestToAddresses platform0 (Some [Some ''john@x.com <john@x.com>'']))
       = Inr ''john@x.com.test <john@x.com>''"
proof -
  have e: "extractEmailAddress (Some ''john@x.com <john@x.com>'') = Inr ''john@x.com''"
    by (simp add: extractEmailAddress_def emailRegex_match_def)
  have s: "\<not> shouldSkipModification ''john@x.com'' []"
    by (simp add: shouldSkipModification_def emailModifier_def toLowerCase_def)
  have m: "modifyRecipient ''john@x.com <john@x.com>'' ''john@x.com''
             = ''john@x.com.test <john@x.com>''"
    by (simp add: modifyRecipient_def js_replace_def emailModifier_def)
  show ?thesis
    by (simp add: addTestToAddresses_single processRecipient_def e s m platform0_whitelist
        no_table_no_user [OF platform0_tables])
qed

subsection \<open>C4: Order of the skip rules\<close>



subsection \<open>C5: Rule A: already processed\<close>

text \<open>
  C5: a recipient whose extracted address already contains \<open>.test\<close> is returned
  unchanged, for every whitelist, group list and platform, and no user is looked up;
  \<open>addTestToAddresses(["a@x.com.test"])\<close> returns \<open>"a@x.com.test"\<close>.
\<close>

theorem already_processed_unchanged:
  assumes "extractEmailAddress (Some r) = Inr e" and "sublist emailModifier e"
  shows "processRecipient p (Some r) wl gids = (Inr r, []) \<and>
         addTestToAddresses p (Some [Some r]) =
           (Inr r, [GetProperty ''mck.email.subProdEmail.ReceivingAddresses'',
                    GetProperty ''mck.email.subProdEmail.ReceivingGroupIds''])"
proof -
  have skip: "shouldSkipModification e w" for w
    using assms(2) by (simp add: shouldSkipModification_def indexOf_sublist)
  have "processRecipient p (Some r) w g = (Inr r, [])" for w g
    using assms(1) skip by (simp add: processRecipient_def)
  then show ?thesis
    by (simp add: addTestToAddresses_single)
qed

theorem already_processed_unchanged_witness:
  "\<forall>p. fst (addTestToAddresses p (Some [Some ''a@x.com.test''])) = Inr ''a@x.com.test''"
proof -
  have h1: "extractEmailAddress (Some ''a@x.com.test'') = Inr ''a@x.com.test''"
    by (simp add: extractEmailAddress_def emailRegex_match_def)
  have h2: "sublist emailModifier ''a@x.com.test''"
    by (simp add: emailModifier_def sublist_Cons_right)
  show ?thesis
    using already_processed_unchanged [OF h1 h2] by simp
qed

subsection \<open>C6: The keys null and empty string\<close>

lemma platform_literal_instance:
  "getUniqueValue (instance_record (initialize platform_literal)) = Some ''i1''"
  by (simp add: initialize_def getProperty_def platform_literal_def glide_get_find table_rows_def
      getValue_def getUniqueValue_def)

lemma platform_literal_scope:
  "table_rows platform_literal ''x_448357_instanc_0_property_scope'' =
     [[(''instance'', ''i1''), (''property.key'', ''''), (''value'', ''ov'')]]"
  by (simp add: platform_literal_def table_rows_def)

lemma platform_literal_property:
  "table_rows platform_literal ''x_448357_instanc_0_property'' =
     [[(''key'', ''''), (''default_value'', ''e'')], [(''default_value'', ''n'')]]"
  by (simp add: platform_literal_def table_rows_def)

text \<open>
  C6: for the key \<open>null\<close> and for the empty string, \<open>getKey\<close> does not raise and
  looks the key up as it is, by equality, first among the overrides of the instance
  and then among the defaults. When the first override record of the instance whose
  key equals that very value has a value, \<open>getKey\<close> returns it; when there is no such
  record (or its value is \<open>null\<close>), \<open>getKey\<close> returns the default value of the first
  default record whose key equals that very value; it returns \<open>null\<close> when no
  override record of the instance and no default record has that key, and every
  value it returns is the value of a record with that key.
\<close>

theorem getKey_literal_key:
  assumes "k = None \<or> k = Some []"
  shows
    "(\<forall>r rs v.
        filter (\<lambda>r. getValue r ''instance'' = getUniqueValue (instance_record this)
                     \<and> getValue r ''property.key'' = k)
          (table_rows p ''x_448357_instanc_0_property_scope'') = r # rs
        \<and> getValue r ''value'' = Some v
        \<longrightarrow> getKey p this k = Some v)
     \<and> (\<forall>d ds.
          (\<forall>r \<in> set (table_rows p ''x_448357_instanc_0_property_scope'').
             \<not> (getValue r ''instance'' = getUniqueValue (instance_record this)
                \<and> getValue r ''property.key'' = k))
          \<and> filter (\<lambda>r. getValue r ''key'' = k) (table_rows p ''x_448357_instanc_0_property'')
              = d # ds
          \<longrightarrow> getKey p this k = getValue d ''default_value'')
     \<and> (\<forall>r rs d ds.
          filter (\<lambda>r. getValue r ''instance'' = getUniqueValue (instance_record this)
                       \<and> getValue r ''property.key'' = k)
            (table_rows p ''x_448357_instanc_0_property_scope'') = r # rs
          \<and> getValue r ''value'' = None
          \<and> filter (\<lambda>r. getValue r ''key'' = k) (table_rows p ''x_448357_instanc_0_property'')
              = d # ds
          \<longrightarrow> getKey p this k = getValue d ''default_value'')
     \<and> ((\<forall>r \<in> set (table_rows p ''x_448357_instanc_0_property_scope'').
           \<not> (getValue r ''instance'' = getUniqueValue (instance_record this)
              \<and> getValue r ''property.key'' = k))
        \<and> (\<forall>r \<in> set (table_rows p ''x_448357_instanc_0_property''). getValue r ''key'' \<noteq> k)
        \<longrightarrow> getKey p this k = None)
     \<and> (getKey p this k \<noteq> None \<longrightarrow>
          (\<exists>r \<in> set (table_rows p ''x_448357_instanc_0_property_scope'').
             getValue r ''instance'' = getUniqueValue (instance_record this)
             \<and> getValue r ''property.key'' = k \<and> getValue r ''value'' = getKey p this k)
          \<or> (\<exists>r \<in> set (table_rows p ''x_448357_instanc_0_property'').
               getValue r ''key'' = k \<and> getValue r ''default_value'' = getKey p this k))"
proof -
  let ?ov = "filter (\<lambda>r. getValue r ''instance'' = getUniqueValue (instance_record this)
                      \<and> getValue r ''property.key'' = k)
           (table_rows p ''x_448357_instanc_0_property_scope'')"
  let ?df = "filter (\<lambda>r. getValue r ''key'' = k) (table_rows p ''x_448357_instanc_0_property'')"
  have lk: "lookup p this k = (case ?ov of [] \<Rightarrow> None | r # _ \<Rightarrow> getValue r ''value'')"
    by (simp add: lookup_def glide_query_two)
  have gd: "getDefault p k = (case ?df of [] \<Rightarrow> None | d # _ \<Rightarrow> getValue d ''default_value'')"
    by (simp add: getDefault_def glide_query_one)
  have none: "?ov = []"
    if "\<forall>r \<in> set (table_rows p ''x_448357_instanc_0_property_scope'').
           \<not> (getValue r ''instance'' = getUniqueValue (instance_record this)
              \<and> getValue r ''property.key'' = k)"
    using that by (simp add: filter_empty_conv)
  have c1: "getKey p this k = Some v" if "?ov = r # rs" and "getValue r ''value'' = Some v" for r rs v
    using that by (simp add: getKey_def lk)
  have c2: "getKey p this k = getValue d ''default_value''"
    if "\<forall>r \<in> set (table_rows p ''x_448357_instanc_0_property_scope'').
           \<not> (getValue r ''instance'' = getUniqueValue (instance_record this)
              \<and> getValue r ''property.key'' = k)"
      and "?df = d # ds" for d ds
    using none [OF that(1)] that(2) by (simp add: getKey_def lk gd)
  have c3: "getKey p this k = getValue d ''default_value''"
    if "?ov = r # rs" and "getValue r ''value'' = None" and "?df = d # ds" for r rs d ds
    using that by (simp add: getKey_def lk gd)
  have c4: "getKey p this k = None"
    if "\<forall>r \<in> set (table_rows p ''x_448357_instanc_0_property_scope'').
           \<not> (getValue r ''instance'' = getUniqueValue (instance_record this)
              \<and> getValue r ''property.key'' = k)"
      and "\<forall>r \<in> set (table_rows p ''x_448357_instanc_0_property''). getValue r ''key'' \<noteq> k"
  proof -
    from that(2) have "?df = []" by (simp add: filter_empty_conv)
    with none [OF that(1)] show ?thesis by (simp add: getKey_def lk gd)
  qed
  have c5: "(\<exists>r \<in> set (table_rows p ''x_448357_instanc_0_property_scope'').
             getValue r ''instance'' = getUniqueValue (instance_record this)
             \<and> getValue r ''property.key'' = k \<and> getValue r ''value'' = getKey p this k)
          \<or> (\<exists>r \<in> set (table_rows p ''x_448357_instanc_0_property'').
               getValue r ''key'' = k \<and> getValue r ''default_value'' = getKey p this k)"
    if found: "getKey p this k \<noteq> None"
  proof (cases "lookup p this k")
    case None
    then have eq: "getKey p this k = getDefault p k" by (simp add: getKey_def)
    with found obtain d ds where d: "?df = d # ds"
      by (cases ?df) (simp_all add: gd)
    then have "d \<in> set ?df" by simp
    then have "d \<in> set (table_rows p ''x_448357_instanc_0_property'')" "getValue d ''key'' = k"
      by simp_all
    moreover have "getValue d ''default_value'' = getKey p this k"
      using eq d by (simp add: gd)
    ultimately show ?thesis by blast
  next
    case (Some v)
    then have eq: "getKey p this k = lookup p this k" by (simp add: getKey_def)
    with found obtain r rs where r: "?ov = r # rs"
      by (cases ?ov) (simp_all add: lk)
    then have "r \<in> set ?ov" by simp
    then have "r \<in> set (table_rows p ''x_448357_instanc_0_property_scope'')"
      "getValue r ''instance'' = getUniqueValue (instance_record this)"
      "getValue r ''property.key'' = k"
      by simp_all
    moreover have "getValue r ''value'' = getKey p this k"
      using eq r by (simp add: lk)
    ultimately show ?thesis by blast
  qed
  from c1 c2 c3 c4 c5 show ?thesis by blast
qed

text \<open>
  On \<open>platform_literal\<close> the empty key is found among the overrides and the key
  \<open>null\<close> among the defaults (the record whose key is not set); on \<open>platform_cfg\<close>
  the empty key is found among the defaults and the key \<open>null\<close> is not found; on
  \<open>platform0\<close> the empty key is not found.
\<close>

theorem getKey_literal_key_witness:
  "getKey platform_literal (initialize platform_literal) (Some []) = Some ''ov''
   \<and> getKey platform_literal (initialize platform_literal) None = Some ''n''
   \<and> getKey platform_cfg (initialize platform_cfg) (Some []) = Some ''e''
   \<and> getKey platform_cfg (initialize platform_cfg) None = None
   \<and> getKey platform0 (initialize platform0) (Some []) = None"
proof -
  have a: "(None :: string option) = None \<or> (None :: string option) = Some []" by simp
  have b: "Some [] = None \<or> Some [] = Some ([] :: string)" by simp
  note L1 = getKey_literal_key [OF b, of "initialize platform_literal" platform_literal]
  note L2 = getKey_literal_key [OF a, of "initialize platform_literal" platform_literal]
  note C1 = getKey_literal_key [OF b, of "initialize platform_cfg" platform_cfg]
  note C2 = getKey_literal_key [OF a, of "initialize platform_cfg" platform_cfg]
  note Z = getKey_literal_key [OF b, of "initialize platform0" platform0]
  have t0: "table_rows platform0 tbl = []" for tbl
    by (simp add: platform0_def table_rows_def)
  have o1: "filter (\<lambda>r. getValue r ''instance'' = getUniqueValue (instance_record (initialize platform_literal))
                     \<and> getValue r ''property.key'' = Some [])
              (table_rows platform_literal ''x_448357_instanc_0_property_scope'')
            = [(''instance'', ''i1''), (''property.key'', ''''), (''value'', ''ov'')] # []"
    by (simp add: platform_literal_instance platform_literal_scope getValue_def)
  have v1: "getValue [(''instance'', ''i1''), (''property.key'', ''''), (''value'', ''ov'')] ''value'' = Some ''ov''"
    by (simp add: getValue_def)
  have w1: "getKey platform_literal (initialize platform_literal) (Some []) = Some ''ov''"
    using L1 [THEN conjunct1, rule_format, OF conjI, OF o1 v1] .
  have n2: "\<forall>r \<in> set (table_rows platform_literal ''x_448357_instanc_0_property_scope'').
             \<not> (getValue r ''instance'' = getUniqueValue (instance_record (initialize platform_literal))
                \<and> getValue r ''property.key'' = None)"
    by (simp add: platform_literal_scope getValue_def)
  have d2: "filter (\<lambda>r. getValue r ''key'' = None) (table_rows platform_literal ''x_448357_instanc_0_property'')
              = [(''default_value'', ''n'')] # []"
    by (simp add: platform_literal_property getValue_def)
  have "getKey platform_literal (initialize platform_literal) None = getValue [(''default_value'', ''n'')] ''default_value''"
    using L2 [THEN conjunct2, THEN conjunct1, rule_format, OF conjI, OF n2 d2] .
  then have w2: "getKey platform_literal (initialize platform_literal) None = Some ''n''"
    by (simp add: getValue_def)
  have n3: "\<forall>r \<in> set (table_rows platform_cfg ''x_448357_instanc_0_property_scope'').
             \<not> (getValue r ''instance'' = getUniqueValue (instance_record (initialize platform_cfg))
                \<and> getValue r ''property.key'' = Some [])"
    by (simp add: platform_cfg_scope getValue_def)
  have d3: "filter (\<lambda>r. getValue r ''key'' = Some []) (table_rows platform_cfg ''x_448357_instanc_0_property'')
              = [(''key'', ''''), (''default_value'', ''e'')] # []"
    by (simp add: platform_cfg_property getValue_def)
  have "getKey platform_cfg (initialize platform_cfg) (Some []) = getValue [(''key'', ''''), (''default_value'', ''e'')] ''default_value''"
    using C1 [THEN conjunct2, THEN conjunct1, rule_format, OF conjI, OF n3 d3] .
  then have w3: "getKey platform_cfg (initialize platform_cfg) (Some []) = Some ''e''"
    by (simp add: getValue_def)
  have n4: "\<forall>r \<in> set (table_rows platform_cfg ''x_448357_instanc_0_property_scope'').
             \<not> (getValue r ''instance'' = getUniqueValue (instance_record (initialize platform_cfg))
                \<and> getValue r ''property.key'' = None)"
    by (simp add: platform_cfg_scope getValue_def)
  have m4: "\<forall>r \<in> set (table_rows platform_cfg ''x_448357_instanc_0_property''). getValue r ''key'' \<noteq> None"
    by (simp add: platform_cfg_property getValue_def)
  have w4: "getKey platform_cfg (initialize platform_cfg) None = None"
    using C2 [THEN conjunct2, THEN conjunct2, THEN conjunct2, THEN conjunct1, rule_format, OF conjI, OF n4 m4] .
  have n5: "\<forall>r \<in> set (table_rows platform0 ''x_448357_instanc_0_property_scope'').
             \<not> (getValue r ''instance'' = getUniqueValue (instance_record (initialize platform0))
                \<and> getValue r ''property.key'' = Some [])"
    by (simp add: t0)
  have m5: "\<forall>r \<in> set (table_rows platform0 ''x_448357_instanc_0_property''). getValue r ''key'' \<noteq> Some []"
    by (simp add: t0)
  have w5: "getKey platform0 (initialize platform0) (Some []) = None"
    using Z [THEN conjunct2, THEN conjunct2, THEN conjunct2, THEN conjunct1, rule_format, OF conjI, OF n5 m5] .
  from w1 w2 w3 w4 w5 show ?thesis by simp
qed

subsection \<open>C7: Empty and absent recipient lists\<close>

text \<open>
  C7: \<open>addTestToAddresses\<close> returns the empty string for an empty recipient list and
  for an absent (\<open>null\<close>) one, and makes no call to the platform: no property is read
  and no recipient is processed.
\<close>

theorem addTestToAddresses_empty:
  "addTestToAddresses p None = (Inr [], []) \<and> addTestToAddresses p (Some []) = (Inr [], [])"
  by (simp add: addTestToAddresses_def)

subsection \<open>C8: Malformed recipients\<close>

text \<open>
  C8 (a malformed recipient is treated as the address and gets \<open>.test\<close> appended when
  no rule applies) fails on the code for a string with a replacement pattern:
  \<open>"a$$b"\<close> is not matched by the regular expression, no rule applies, and the
  result is \<open>"a$b.test"\<close>, not \<open>"a$$b.test"\<close>, since the whole string is used as the
  replacement text of \<open>replace\<close>.
\<close>

theorem dollar_pattern_expanded:
  "emailRegex_match ''a$$b'' = None
   \<and> fst (addTestToAddresses platform0 (Some [Some ''a$$b''])) = Inr ''a$b.test''"
proof -
  have e: "extractEmailAddress (Some ''a$$b'') = Inr ''a$$b''"
    by (simp add: extractEmailAddress_def emailRegex_match_def)
  have s: "\<not> shouldSkipModification ''a$$b'' []"
    by (simp add: shouldSkipModification_def emailModifier_def toLowerCase_def)
  have m: "modifyRecipient ''a$$b'' ''a$$b'' = ''a$b.test''"
    by (simp add: modifyRecipient_def js_replace_def emailModifier_def)
  show ?thesis
    by (simp add: addTestToAddresses_single processRecipient_def e s m platform0_whitelist
        no_table_no_user [OF platform0_tables] emailRegex_match_def)
qed

subsection \<open>C9: An empty extracted address\<close>

text \<open>
  C9: a recipient whose extracted address is the empty string (such as
  \<open>"Name <>"\<close>) is returned unchanged for every whitelist string, hence for every
  platform, also one with no whitelist property: the empty string is found in every
  string, so rule B applies.
\<close>

theorem empty_address_unchanged:
  assumes "extractEmailAddress (Some r) = Inr []"
  shows "shouldSkipModification [] wl \<and>
         processRecipient p (Some r) wl gids = (Inr r, []) \<and>
         fst (addTestToAddresses p (Some [Some r])) = Inr r"
proof -
  have skip: "shouldSkipModification [] w" for w
    by (simp add: shouldSkipModification_def toLowerCase_def indexOf_Nil)
  have "processRecipient p (Some r) w g = (Inr r, [])" for w g
    using assms skip by (simp add: processRecipient_def)
  then show ?thesis
    using skip by (simp add: addTestToAddresses_single)
qed

theorem empty_address_unchanged_witness:
  "\<forall>p. fst (addTestToAddresses p (Some [Some ''Name <>''])) = Inr ''Name <>''"
proof -
  have h: "extractEmailAddress (Some ''Name <>'') = Inr []"
    by (simp add: extractEmailAddress_def emailRegex_match_def)
  show ?thesis
    using empty_address_unchanged [OF h] by simp
qed

subsection \<open>C10: A second pass\<close>

text \<open>
  C10 (a second pass over the split output changes nothing) fails on the code for
  \<open>"john@x.com <john@x.com>"\<close>: the first pass puts the suffix in the display name,
  so the extracted address of the output still has no \<open>.test\<close> and the second pass
  modifies it again.
\<close>

theorem second_pass_differs:
  "fst (addTestToAddresses platform0 (Some [Some ''john@x.com <john@x.com>'']))
     = Inr ''john@x.com.test <john@x.com>''
   \<and> split_comma ''john@x.com.test <john@x.com>'' = [''john@x.com.test <john@x.com>'']
   \<and> fst (addTestToAddresses platform0
            (Some (map Some (split_comma ''john@x.com.test <john@x.com>''))))
       = Inr ''john@x.com.test.test <john@x.com>''"
proof -
  have e1: "extractEmailAddress (Some ''john@x.com <john@x.com>'') = Inr ''john@x.com''"
    by (simp add: extractEmailAddress_def emailRegex_match_def)
  have e2: "extractEmailAddress (Some ''john@x.com.test <john@x.com>'') = Inr ''john@x.com''"
    by (simp add: extractEmailAddress_def emailRegex_match_def)
  have s: "\<not> shouldSkipModification ''john@x.com'' []"
    by (simp add: shouldSkipModification_def emailModifier_def toLowerCase_def)
  have m1: "modifyRecipient ''john@x.com <john@x.com>'' ''john@x.com''
              = ''john@x.com.test <john@x.com>''"
    by (simp add: modifyRecipient_def js_replace_def emailModifier_def)
  have m2: "modifyRecipient ''john@x.com.test <john@x.com>'' ''john@x.com''
              = ''john@x.com.test.test <john@x.com>''"
    by (simp add: modifyRecipient_def js_replace_def emailModifier_def)
  have sp: "split_comma ''john@x.com.test <john@x.com>'' = [''john@x.com.test <john@x.com>'']"
    by (rule split_comma_no_comma) simp
  show ?thesis
    by (simp add: sp addTestToAddresses_single processRecipient_def e1 e2 s m1 m2
        platform0_whitelist no_table_no_user [OF platform0_tables])
qed

end
